theory Spec2Isabelle
  imports Main "HOL-Library.Word" "HOL-Library.Sublist"
begin

unbundle bit_operations_syntax

section \<open>Bytes, strings and the buffered reader\<close>

text \<open>
  Go's \<^verbatim>\<open>[]byte\<close> is a list of 8-bit words, \<^verbatim>\<open>uint16\<close> a 16-bit word and
  \<^verbatim>\<open>int\<close> an integer (the 64-bit range matters only inside \<open>Sscanf_d\<close>, where it
  is written out). The text of the v1 header is handled as bytes, as Go strings are.
\<close>

type_synonym byte = "8 word"
type_synonym uint16 = "16 word"

definition bytes_of :: "string \<Rightarrow> byte list" where
  "bytes_of s = map of_char s"

definition CR :: byte where "CR = 0x0D"
definition LF :: byte where "LF = 0x0A"
definition SP :: byte where "SP = 0x20"

text \<open>\<^verbatim>\<open>proxyV2Sig\<close> and \<^verbatim>\<open>proxyV1Prefix\<close> of proxyproto.go.\<close>

definition proxyV2Sig :: "byte list" where
  "proxyV2Sig = [0x0D, 0x0A, 0x0D, 0x0A, 0x00, 0x0D, 0x0A, 0x51, 0x55, 0x49, 0x54, 0x0A]"

definition proxyV1Prefix :: "byte list" where
  "proxyV1Prefix = bytes_of ''PROXY ''"

text \<open>
  A \<^verbatim>\<open>bufio.Reader\<close> over a connection is modelled by the bytes it has not yet handed
  out: those already buffered followed by those the connection still delivers before it
  ends. \<open>Peek\<close> consumes nothing; when fewer than \<open>n\<close> bytes remain it returns what
  there is together with an error. \<open>ReadBytes\<close> consumes through the first delimiter,
  \<open>readFull\<close> consumes exactly \<open>n\<close> bytes; both drain the reader and fail when the
  stream ends first. (The buffer of 512 bytes exceeds every \<open>Peek\<close> size used, so
  \<^verbatim>\<open>ErrBufferFull\<close> does not arise.)
\<close>

type_synonym reader = "byte list"

datatype io_error = EOF

definition Peek :: "nat \<Rightarrow> reader \<Rightarrow> byte list \<times> io_error option" where
  "Peek n br = (take n br, if length br < n then Some EOF else None)"

definition ReadBytes :: "byte \<Rightarrow> reader \<Rightarrow> (io_error + byte list) \<times> reader" where
  "ReadBytes delim br =
     (if delim \<in> set br
      then (Inr (takeWhile (\<lambda>b. b \<noteq> delim) br @ [delim]), tl (dropWhile (\<lambda>b. b \<noteq> delim) br))
      else (Inl EOF, []))"

definition readFull :: "nat \<Rightarrow> reader \<Rightarrow> (io_error + byte list) \<times> reader" where
  "readFull n br = (if n \<le> length br then (Inr (take n br), drop n br) else (Inl EOF, []))"

section \<open>Library functions used by the codec\<close>

text \<open>\<^verbatim>\<open>strings.TrimRight(s, cutset)\<close> and \<^verbatim>\<open>strings.Split(s, sep)\<close> for a one-byte separator.\<close>

definition TrimRight :: "'a list \<Rightarrow> 'a list \<Rightarrow> 'a list" where
  "TrimRight s cutset = rev (dropWhile (\<lambda>b. b \<in> set cutset) (rev s))"

fun Split :: "'a list \<Rightarrow> 'a \<Rightarrow> 'a list list" where
  "Split [] sep = [[]]"
| "Split (b # bs) sep =
     (if b = sep then [] # Split bs sep
      else (case Split bs sep of p # ps \<Rightarrow> (b # p) # ps | [] \<Rightarrow> [[b]]))"

text \<open>
  \<^verbatim>\<open>fmt.Sscanf(str, "%d", &v)\<close> with \<^verbatim>\<open>v\<close> an \<^verbatim>\<open>int\<close>, taken as 64 bits wide (as
  on every 64-bit target). The scanner skips leading
  space runes (the table of \<^verbatim>\<open>fmt\<close>'s \<^verbatim>\<open>isSpace\<close>, read through the UTF-8 decoder; a
  newline is an error for the \<^verbatim>\<open>Sscanf\<close> family), accepts one sign, requires at least
  one decimal digit, takes all digits that follow and converts the token with
  \<^verbatim>\<open>strconv.ParseInt(tok, 10, 64)\<close>, which fails outside the 64-bit range. On any
  error nothing is stored: the result is \<open>None\<close> and the caller's variable keeps its
  value. Input left after the digits is not an error.
\<close>

fun SkipSpace :: "byte list \<Rightarrow> byte list option" where
  "SkipSpace [] = Some []"
| "SkipSpace (b # bs) =
     (if b = 0x0A then None
      else if (0x09 \<le> b \<and> b \<le> 0x0D) \<or> b = 0x20 then SkipSpace bs
      else if b = 0xC2 \<and> (take 1 bs = [0x85] \<or> take 1 bs = [0xA0]) then SkipSpace (drop 1 bs)
      else if b = 0xE1 \<and> take 2 bs = [0x9A, 0x80] then SkipSpace (drop 2 bs)
      else if b = 0xE2 \<and> take 1 bs = [0x80] \<and> length bs \<ge> 2 \<and>
              ((0x80 \<le> bs ! 1 \<and> bs ! 1 \<le> 0x8A) \<or> bs ! 1 = 0xA8 \<or> bs ! 1 = 0xA9 \<or> bs ! 1 = 0xAF)
           then SkipSpace (drop 2 bs)
      else if b = 0xE2 \<and> take 2 bs = [0x81, 0x9F] then SkipSpace (drop 2 bs)
      else if b = 0xE3 \<and> take 2 bs = [0x80, 0x80] then SkipSpace (drop 2 bs)
      else Some (b # bs))"

definition isDigit :: "byte \<Rightarrow> bool" where
  "isDigit b = (0x30 \<le> b \<and> b \<le> 0x39)"

definition digitsVal :: "byte list \<Rightarrow> nat" where
  "digitsVal ds = foldl (\<lambda>a b. 10 * a + (unat b - 48)) 0 ds"

definition Sscanf_d :: "byte list \<Rightarrow> int option" where
  "Sscanf_d str =
     (case SkipSpace str of
        None \<Rightarrow> None
      | Some [] \<Rightarrow> None
      | Some (c # cs) \<Rightarrow>
          (let neg = (c = 0x2D);
               s2 = (if c = 0x2B \<or> c = 0x2D then cs else c # cs);
               ds = takeWhile isDigit s2;
               un = digitsVal ds
           in if ds = [] then None
              else if \<not> neg \<and> un \<ge> 2 ^ 63 then None
              else if neg \<and> un > 2 ^ 63 then None
              else Some (if neg then - int un else int un)))"

text \<open>\<^verbatim>\<open>net.IP.To4\<close>, \<^verbatim>\<open>net.IP.To16\<close> and \<^verbatim>\<open>net.IP.Equal\<close>; a nil \<^verbatim>\<open>net.IP\<close> is \<open>None\<close>.\<close>

definition v4InV6Prefix :: "byte list" where
  "v4InV6Prefix = [0, 0, 0, 0, 0, 0, 0, 0, 0, 0, 0xff, 0xff]"

definition To4 :: "byte list \<Rightarrow> byte list option" where
  "To4 ip =
     (if length ip = 4 then Some ip
      else if length ip = 16 \<and> take 10 ip = replicate 10 0 \<and> ip ! 10 = 0xff \<and> ip ! 11 = 0xff
      then Some (drop 12 ip)
      else None)"

definition To16 :: "byte list \<Rightarrow> byte list option" where
  "To16 ip =
     (if length ip = 4 then Some (v4InV6Prefix @ ip)
      else if length ip = 16 then Some ip
      else None)"

definition Equal :: "byte list \<Rightarrow> byte list \<Rightarrow> bool" where
  "Equal ip x =
     (if length ip = length x then ip = x
      else if length ip = 4 \<and> length x = 16 then take 12 x = v4InV6Prefix \<and> ip = drop 12 x
      else if length ip = 16 \<and> length x = 4 then take 12 ip = v4InV6Prefix \<and> drop 12 ip = x
      else False)"

section \<open>The PROXY protocol codec (proxyproto.go)\<close>

record ProxyHeader =
  Version :: int
  SrcAddr :: "byte list option"
  DstAddr :: "byte list option"
  SrcPort :: uint16
  DstPort :: uint16
  RawBytes :: "byte list"

text \<open>One constructor for each \<^verbatim>\<open>fmt.Errorf\<close> of the codec.\<close>

datatype proxy_error =
    V1ReadLine
  | V1NoCRLF
  | V1FieldCount nat
  | V2ReadFixed
  | V2Version byte
  | V2ReadAddr

definition BigEndianUint16 :: "byte \<Rightarrow> byte \<Rightarrow> uint16" where
  "BigEndianUint16 hi lo = push_bit 8 (ucast hi) OR ucast lo"

text \<open>
  \<^verbatim>\<open>parseProxyV1\<close>. \<^verbatim>\<open>net.ParseIP\<close> is a parameter: no property below depends on
  which address a literal denotes.
\<close>

definition parseProxyV1 ::
  "(byte list \<Rightarrow> byte list option) \<Rightarrow> reader \<Rightarrow> (proxy_error + ProxyHeader) \<times> reader" where
  "parseProxyV1 ParseIP br =
     (case ReadBytes LF br of
        (Inl e, br') \<Rightarrow> (Inl V1ReadLine, br')
      | (Inr line, br') \<Rightarrow>
          if length line < 2 \<or> line ! (length line - 2) \<noteq> CR then (Inl V1NoCRLF, br')
          else
            let header = \<lparr>Version = 1, SrcAddr = None, DstAddr = None,
                          SrcPort = 0, DstPort = 0, RawBytes = line\<rparr>;
                str = TrimRight line [CR, LF];
                parts = Split str SP
            in if length parts = 2 \<and> parts ! 1 = bytes_of ''UNKNOWN'' then (Inr header, br')
               else if length parts \<noteq> 6 then (Inl (V1FieldCount (length parts)), br')
               else
                 let srcPort = (case Sscanf_d (parts ! 4) of Some v \<Rightarrow> v | None \<Rightarrow> 0);
                     dstPort = (case Sscanf_d (parts ! 5) of Some v \<Rightarrow> v | None \<Rightarrow> 0)
                 in (Inr (header\<lparr>SrcAddr := ParseIP (parts ! 2),
                                  DstAddr := ParseIP (parts ! 3),
                                  SrcPort := of_int srcPort,
                                  DstPort := of_int dstPort\<rparr>), br'))"

definition parseProxyV2 :: "reader \<Rightarrow> (proxy_error + ProxyHeader) \<times> reader" where
  "parseProxyV2 br =
     (case readFull 16 br of
        (Inl e, br1) \<Rightarrow> (Inl V2ReadFixed, br1)
      | (Inr fixedHeader, br1) \<Rightarrow>
          let verCmd = fixedHeader ! 12;
              ver = drop_bit 4 verCmd
          in if ver \<noteq> 2 then (Inl (V2Version ver), br1)
             else
               let famProto = fixedHeader ! 13;
                   addrFamily = drop_bit 4 famProto;
                   addrLen = BigEndianUint16 (fixedHeader ! 14) (fixedHeader ! 15)
               in (case (if addrLen > 0 then readFull (unat addrLen) br1 else (Inr [], br1)) of
                     (Inl e, br2) \<Rightarrow> (Inl V2ReadAddr, br2)
                   | (Inr addrBlock, br2) \<Rightarrow>
                       let rawBytes = fixedHeader @ addrBlock;
                           header = \<lparr>Version = 2, SrcAddr = None, DstAddr = None,
                                     SrcPort = 0, DstPort = 0, RawBytes = rawBytes\<rparr>
                       in (Inr
                            (if addrFamily = 0x1 then
                               (if addrLen \<ge> 12 then
                                  header\<lparr>SrcAddr := Some (take 4 addrBlock),
                                         DstAddr := Some (take 4 (drop 4 addrBlock)),
                                         SrcPort := BigEndianUint16 (addrBlock ! 8) (addrBlock ! 9),
                                         DstPort := BigEndianUint16 (addrBlock ! 10) (addrBlock ! 11)\<rparr>
                                else header)
                             else if addrFamily = 0x2 then
                               (if addrLen \<ge> 36 then
                                  header\<lparr>SrcAddr := Some (take 16 addrBlock),
                                         DstAddr := Some (take 16 (drop 16 addrBlock)),
                                         SrcPort := BigEndianUint16 (addrBlock ! 32) (addrBlock ! 33),
                                         DstPort := BigEndianUint16 (addrBlock ! 34) (addrBlock ! 35)\<rparr>
                                else header)
                             else header), br2)))"

text \<open>
  \<^verbatim>\<open>detectProxyProtocol\<close>: the result is the error, or the header if one was found
  (\<open>None\<close> for Go's \<^verbatim>\<open>nil, nil\<close>), together with the reader after the call.
\<close>

definition detectProxyProtocol ::
  "(byte list \<Rightarrow> byte list option) \<Rightarrow> reader \<Rightarrow> (proxy_error + ProxyHeader option) \<times> reader" where
  "detectProxyProtocol ParseIP br =
     (let (peek16, err16) = Peek 16 br;
          (peek, err) = (if err16 \<noteq> None then Peek 6 br else (peek16, err16))
      in if err \<noteq> None then (Inr None, br)
         else if length peek \<ge> 16 \<and> take 12 peek = proxyV2Sig then
           (case parseProxyV2 br of
              (Inl e, br') \<Rightarrow> (Inl e, br')
            | (Inr h, br') \<Rightarrow> (Inr (Some h), br'))
         else if length peek \<ge> 6 \<and> take 6 peek = proxyV1Prefix then
           (case parseProxyV1 ParseIP br of
              (Inl e, br') \<Rightarrow> (Inl e, br')
            | (Inr h, br') \<Rightarrow> (Inr (Some h), br'))
         else (Inr None, br))"

text \<open>
  \<^verbatim>\<open>buildProxyV2Header\<close>. A \<^verbatim>\<open>net.Addr\<close> is a \<^verbatim>\<open>*net.TCPAddr\<close> (its IP and port; the
  zone is not read) or some other address; a nil pointer, on which the source would
  panic, is not a value of the model. The header is built as the source does:
  a zeroed slice, then \<^verbatim>\<open>copy\<close> into sub-slices (which copies no more than the source
  holds) and \<^verbatim>\<open>PutUint16\<close>, which stores the high byte and then the low byte
  (\<open>be16\<close> is that pair of bytes).
\<close>

datatype Addr = TCPAddr (IP: "byte list") (Port: int) | OtherAddr

definition makeBytes :: "nat \<Rightarrow> byte list" where
  "makeBytes n = replicate n 0"

definition copy :: "byte list \<Rightarrow> nat \<Rightarrow> nat \<Rightarrow> byte list \<Rightarrow> byte list" where
  "copy dst lo hi src =
     (let n = min (hi - lo) (length src)
      in take lo dst @ take n src @ drop (lo + n) dst)"

definition hi_byte :: "uint16 \<Rightarrow> byte" where
  "hi_byte v = ucast (drop_bit 8 v)"

definition lo_byte :: "uint16 \<Rightarrow> byte" where
  "lo_byte v = ucast v"

definition PutUint16 :: "byte list \<Rightarrow> nat \<Rightarrow> uint16 \<Rightarrow> byte list" where
  "PutUint16 b off v = b[off := hi_byte v, off + 1 := lo_byte v]"

definition be16 :: "uint16 \<Rightarrow> byte list" where
  "be16 v = [hi_byte v, lo_byte v]"

definition nil_to_empty :: "byte list option \<Rightarrow> byte list" where
  "nil_to_empty x = (case x of None \<Rightarrow> [] | Some xs \<Rightarrow> xs)"

definition buildProxyV2Header :: "Addr \<Rightarrow> Addr \<Rightarrow> byte list" where
  "buildProxyV2Header srcAddr dstAddr =
     (case (srcAddr, dstAddr) of
        (TCPAddr srcIP srcPort, TCPAddr dstIP dstPort) \<Rightarrow>
          (let srcIPv4 = To4 srcIP; dstIPv4 = To4 dstIP
           in if srcIPv4 \<noteq> None \<and> dstIPv4 \<noteq> None then
                (let header = makeBytes (16 + 12);
                     header = copy header 0 12 proxyV2Sig;
                     header = header[12 := 0x21];
                     header = header[13 := 0x11];
                     header = PutUint16 header 14 12;
                     header = copy header 16 20 (nil_to_empty srcIPv4);
                     header = copy header 20 24 (nil_to_empty dstIPv4);
                     header = PutUint16 header 24 (of_int srcPort);
                     header = PutUint16 header 26 (of_int dstPort)
                 in header)
              else
                (let srcIPv6 = To16 srcIP; dstIPv6 = To16 dstIP;
                     header = makeBytes (16 + 36);
                     header = copy header 0 12 proxyV2Sig;
                     header = header[12 := 0x21];
                     header = header[13 := 0x21];
                     header = PutUint16 header 14 36;
                     header = copy header 16 32 (nil_to_empty srcIPv6);
                     header = copy header 32 48 (nil_to_empty dstIPv6);
                     header = PutUint16 header 48 (of_int srcPort);
                     header = PutUint16 header 50 (of_int dstPort)
                 in header))
      | _ \<Rightarrow>
          (let header = makeBytes 16;
               header = copy header 0 12 proxyV2Sig;
               header = header[12 := 0x20];
               header = header[13 := 0x00];
               header = PutUint16 header 14 0
           in header))"

section \<open>The TCP forwarder (\<^verbatim>\<open>handleConnection\<close>)\<close>

text \<open>
  What one accepted connection writes to the backend. The environment of the handler
  is the pair of socket addresses, whether \<^verbatim>\<open>net.DialTimeout\<close> succeeds, and how many
  bytes the backend connection takes before a \<^verbatim>\<open>Write\<close> fails (\<open>None\<close>: no write
  fails). \<open>conn_Write\<close> returns the bytes that went out and whether the call
  succeeded. \<^verbatim>\<open>io.Copy(backendConn, br)\<close> writes what is left in the buffered reader,
  in order, until the reader ends or a write fails. The copy in the other direction
  writes to the client only and is not part of the model; the log lines are left out.
\<close>

record conn_env =
  RemoteAddr :: Addr
  LocalAddr :: Addr
  dial_ok :: bool
  backend_accepts :: "nat option"

datatype conn_outcome =
    DetectFailed proxy_error
  | DialFailed
  | HeaderWriteFailed "byte list"
  | Spliced "byte list"

definition conn_Write :: "nat option \<Rightarrow> byte list \<Rightarrow> byte list \<times> bool" where
  "conn_Write cap p =
     (case cap of None \<Rightarrow> (p, True) | Some k \<Rightarrow> (take k p, length p \<le> k))"

definition after_Write :: "nat option \<Rightarrow> byte list \<Rightarrow> nat option" where
  "after_Write cap p = (case cap of None \<Rightarrow> None | Some k \<Rightarrow> Some (k - length p))"

definition io_Copy :: "nat option \<Rightarrow> reader \<Rightarrow> byte list" where
  "io_Copy cap br = fst (conn_Write cap br)"

definition handleConnection ::
  "(byte list \<Rightarrow> byte list option) \<Rightarrow> conn_env \<Rightarrow> reader \<Rightarrow> conn_outcome" where
  "handleConnection ParseIP env client =
     (case detectProxyProtocol ParseIP client of
        (Inl err, br) \<Rightarrow> DetectFailed err
      | (Inr proxyHeader, br) \<Rightarrow>
          if \<not> dial_ok env then DialFailed
          else
            (case proxyHeader of
               Some ph \<Rightarrow>
                 (case conn_Write (backend_accepts env) (RawBytes ph) of
                    (sent, False) \<Rightarrow> HeaderWriteFailed sent
                  | (sent, True) \<Rightarrow>
                      Spliced (sent @ io_Copy (after_Write (backend_accepts env) (RawBytes ph)) br))
             | None \<Rightarrow>
                 (let header = buildProxyV2Header (RemoteAddr env) (LocalAddr env)
                  in case conn_Write (backend_accepts env) header of
                       (sent, False) \<Rightarrow> HeaderWriteFailed sent
                     | (sent, True) \<Rightarrow>
                         Spliced (sent @ io_Copy (after_Write (backend_accepts env) header) br))))"

section \<open>The session-auth fan-out (\<^verbatim>\<open>handleHasJoined\<close>)\<close>

text \<open>
  The dispatcher loop of \<^verbatim>\<open>handleHasJoined\<close> is a \<^verbatim>\<open>select\<close> over the result channel
  and \<^verbatim>\<open>ctx.Done()\<close>. Its run is determined by the sequence of cases the \<^verbatim>\<open>select\<close>
  takes: \<open>Result r\<close> when it receives \<open>r\<close> from the channel, \<open>Done\<close> when the context
  is done (the 10 s deadline, or the request's own context ending). The loop is a
  function of that sequence; a sequence that ends while the loop still waits stands
  for a \<^verbatim>\<open>select\<close> that never becomes ready, and the result is \<open>None\<close>. A response
  is the status, the headers the handler sets itself and the body written. Next to the
  response the model returns the URLs of the probes started and the events not
  consumed. The log lines and \<^verbatim>\<open>lastResult\<close>, which only feeds them, are left out.
\<close>

record authResult =
  StatusCode :: int
  Body :: "byte list"
  Server :: string
  Err :: "string option"

datatype event = Result authResult | Done

record response =
  status :: int
  headers :: "(string \<times> string) list"
  body :: "byte list"

record served =
  resp :: response
  probes :: "string list"
  unconsumed :: "event list"

definition hasJoinedPath :: string where
  "hasJoinedPath = ''/session/minecraft/hasJoined''"

definition StatusOK :: int where "StatusOK = 200"
definition StatusNoContent :: int where "StatusNoContent = 204"
definition StatusBadRequest :: int where "StatusBadRequest = 400"
definition StatusNotFound :: int where "StatusNotFound = 404"

definition no_content :: response where
  "no_content = \<lparr>status = StatusNoContent, headers = [], body = []\<rparr>"

definition success :: "byte list \<Rightarrow> response" where
  "success b = \<lparr>status = StatusOK, headers = [(''Content-Type'', ''application/json'')], body = b\<rparr>"

text \<open>\<^verbatim>\<open>http.Error(w, msg, code)\<close>: two headers, the status and the message with a newline.\<close>

definition http_Error :: "string \<Rightarrow> int \<Rightarrow> response" where
  "http_Error msg code =
     \<lparr>status = code,
      headers = [(''Content-Type'', ''text/plain; charset=utf-8''),
                 (''X-Content-Type-Options'', ''nosniff'')],
      body = bytes_of msg @ [LF]\<rparr>"

fun dispatch :: "nat \<Rightarrow> event list \<Rightarrow> (response \<times> event list) option" where
  "dispatch 0 evs = Some (no_content, evs)"
| "dispatch (Suc remaining) [] = None"
| "dispatch (Suc remaining) (Done # evs) = Some (no_content, evs)"
| "dispatch (Suc remaining) (Result result # evs) =
     (if Err result \<noteq> None then dispatch remaining evs
      else if StatusCode result = StatusOK \<and> length (Body result) > 0
      then Some (success (Body result), evs)
      else dispatch remaining evs)"

text \<open>
  The test the loop applies to a result: no error, status 200 and a non-empty body.
\<close>

definition wins :: "authResult \<Rightarrow> bool" where
  "wins result = (Err result = None \<and> StatusCode result = StatusOK \<and> length (Body result) > 0)"

text \<open>The URL a probe requests (\<^verbatim>\<open>querySessionServer\<close>).\<close>

definition probe_url :: "string \<Rightarrow> string \<Rightarrow> string" where
  "probe_url serverBase rawQuery =
     TrimRight serverBase ''/'' @ hasJoinedPath @ ''?'' @ rawQuery"

definition handleHasJoined :: "string list \<Rightarrow> string \<Rightarrow> event list \<Rightarrow> served option" where
  "handleHasJoined servers query evs =
     (if query = [] then
        Some \<lparr>resp = http_Error ''missing query parameters'' StatusBadRequest,
              probes = [], unconsumed = evs\<rparr>
      else
        (case dispatch (length servers) evs of
           None \<Rightarrow> None
         | Some (r, evs') \<Rightarrow>
             Some \<lparr>resp = r, probes = map (\<lambda>server. probe_url server query) servers,
                   unconsumed = evs'\<rparr>))"

section \<open>The HTTP front (\<^verbatim>\<open>startMultiauth\<close>)\<close>

text \<open>
  \<^verbatim>\<open>startMultiauth\<close> registers three patterns on an \<^verbatim>\<open>http.ServeMux\<close>:
  \<^verbatim>\<open>/session/minecraft/hasJoined\<close>, \<^verbatim>\<open>/health\<close> and \<^verbatim>\<open>/\<close>. None names a method or a
  host, so the mux chooses by path alone: the first two match that path exactly, the
  third every path that starts with a slash. Before matching, the mux answers the
  request target \<^verbatim>\<open>*\<close> with 400 and, for every method but \<^verbatim>\<open>CONNECT\<close>, redirects
  (301) a path that \<^verbatim>\<open>cleanPath\<close> changes. \<^verbatim>\<open>cleanPath\<close> is the one of \<^verbatim>\<open>net/http\<close>
  on top of \<^verbatim>\<open>path.Clean\<close>, which always sees a rooted path here: empty and
  \<^verbatim>\<open>.\<close> elements go, \<^verbatim>\<open>..\<close> removes the element before it. What the front does
  with a request is an \<open>action\<close>: the handler calls \<^verbatim>\<open>handleHasJoined\<close> with the
  request and the configured servers, or it replies itself, or the mux answers on its own
  (redirect to the cleaned path, 400, or its 404 when no pattern matches).
\<close>

fun Contains :: "string \<Rightarrow> string \<Rightarrow> bool" where
  "Contains [] substr = (substr = [])"
| "Contains (c # cs) substr = (prefix substr (c # cs) \<or> Contains cs substr)"

fun Join :: "string list \<Rightarrow> string \<Rightarrow> string" where
  "Join [] sep = []"
| "Join [e] sep = e"
| "Join (e # es) sep = e @ sep @ Join es sep"

fun cleanElems :: "string list \<Rightarrow> string list \<Rightarrow> string list" where
  "cleanElems out [] = out"
| "cleanElems out (e # es) =
     (if e = [] \<or> e = ''.'' then cleanElems out es
      else if e = ''..'' then cleanElems (butlast out) es
      else cleanElems (out @ [e]) es)"

definition Clean :: "string \<Rightarrow> string" where
  "Clean p = ''/'' @ Join (cleanElems [] (Split (tl p) CHR ''/'')) ''/''"

definition cleanPath :: "string \<Rightarrow> string" where
  "cleanPath p0 =
     (if p0 = [] then ''/''
      else
        let p = (if hd p0 \<noteq> CHR ''/'' then ''/'' @ p0 else p0);
            np = Clean p
        in if last p = CHR ''/'' \<and> np \<noteq> ''/''
           then (if length p = length np + 1 \<and> prefix np p then p else np @ ''/'')
           else np)"

record request =
  Method :: string
  Path :: string
  RawQuery :: string

datatype action =
    CallHasJoined
  | Reply response
  | MuxRedirect string
  | MuxBadRequest
  | MuxNotFound

definition health :: response where
  "health = \<lparr>status = StatusOK, headers = [], body = bytes_of ''ok''\<rparr>"

definition not_found :: response where
  "not_found = \<lparr>status = StatusNotFound, headers = [],
                 body = bytes_of ''mc-dual-proxy multiauth server''\<rparr>"

text \<open>The three handlers, by the pattern that matched.\<close>

definition mux_handler :: "request \<Rightarrow> action" where
  "mux_handler r =
     (if Path r = hasJoinedPath then CallHasJoined
      else if Path r = ''/health'' then Reply health
      else if prefix ''/'' (Path r) then
        (if Contains (Path r) ''hasJoined'' then CallHasJoined else Reply not_found)
      else MuxNotFound)"

definition front :: "request \<Rightarrow> action" where
  "front r =
     (if Path r = ''*'' then MuxBadRequest
      else if Method r = ''CONNECT'' then mux_handler r
      else if cleanPath (Path r) \<noteq> Path r then MuxRedirect (cleanPath (Path r))
      else mux_handler r)"

section \<open>Well-formed headers\<close>

text \<open>
  The headers the codec is specified on. A v2 header is the signature, a version byte
  with high nibble 2, a family byte and a big-endian length \<open>L\<close>, followed by exactly
  \<open>L\<close> more bytes (addresses, then any TLVs). A v1 header is one line: it starts with
  \<^verbatim>\<open>PROXY\<close> and a space, ends with CR LF, has no other LF, and after its line end is
  stripped it splits at spaces into \<^verbatim>\<open>PROXY UNKNOWN\<close> or into six tokens. Every line of
  the form \<^verbatim>\<open>PROXY TCP4|TCP6 src dst sport dport\<close> is among them.
\<close>

definition v2_header :: "byte list \<Rightarrow> bool" where
  "v2_header H =
     (16 \<le> length H \<and> take 12 H = proxyV2Sig \<and> drop_bit 4 (H ! 12) = 2 \<and>
      length H = 16 + unat (BigEndianUint16 (H ! 14) (H ! 15)))"

definition v1_header :: "byte list \<Rightarrow> bool" where
  "v1_header H =
     (prefix proxyV1Prefix H \<and> 2 \<le> length H \<and> H ! (length H - 2) = CR \<and> last H = LF \<and>
      LF \<notin> set (butlast H) \<and>
      (let parts = Split (TrimRight H [CR, LF]) SP
       in (length parts = 2 \<and> parts ! 1 = bytes_of ''UNKNOWN'') \<or> length parts = 6))"

text \<open>
  A port token that is a decimal integer: an optional sign and at least one digit. Its
  value is the integer the digits denote.
\<close>

definition decimal_token :: "byte list \<Rightarrow> bool" where
  "decimal_token tok =
     (case tok of
        [] \<Rightarrow> False
      | c # cs \<Rightarrow>
          (let ds = (if c = 0x2B \<or> c = 0x2D then cs else c # cs)
           in ds \<noteq> [] \<and> list_all isDigit ds))"

definition token_value :: "byte list \<Rightarrow> int" where
  "token_value tok =
     (case tok of
        [] \<Rightarrow> 0
      | c # cs \<Rightarrow>
          if c = 0x2D then - int (digitsVal cs)
          else if c = 0x2B then int (digitsVal cs)
          else int (digitsVal (c # cs)))"

text \<open>
  The synthetic header as the specification words it: for two TCP addresses that are both
  IPv4, the signature, \<open>0x21\<close>, \<open>0x11\<close>, the length 12, the two 4-byte addresses and the
  two ports, big-endian; for two TCP addresses otherwise, the signature, \<open>0x21\<close>, \<open>0x21\<close>,
  the length 36, the two addresses in 16-byte form and the two ports; for anything else
  the 16-byte LOCAL header. An address is valid when it is not a TCP address or its IP
  has 4 or 16 bytes.
\<close>

definition valid_addr :: "Addr \<Rightarrow> bool" where
  "valid_addr a = (case a of TCPAddr ip p \<Rightarrow> length ip = 4 \<or> length ip = 16 | OtherAddr \<Rightarrow> True)"

definition spec_v2_header :: "Addr \<Rightarrow> Addr \<Rightarrow> byte list" where
  "spec_v2_header src dst =
     (case (src, dst) of
        (TCPAddr sip sp, TCPAddr dip dp) \<Rightarrow>
          (case (To4 sip, To4 dip) of
             (Some a, Some b) \<Rightarrow>
               proxyV2Sig @ [0x21, 0x11] @ be16 12 @ a @ b @ be16 (of_int sp) @ be16 (of_int dp)
           | _ \<Rightarrow>
               proxyV2Sig @ [0x21, 0x21] @ be16 36 @ nil_to_empty (To16 sip) @
               nil_to_empty (To16 dip) @ be16 (of_int sp) @ be16 (of_int dp))
      | _ \<Rightarrow> proxyV2Sig @ [0x20, 0x00] @ be16 0)"

section \<open>Properties of the codec\<close>

lemma take_eq_prefix: "take n xs = ys \<Longrightarrow> prefix ys xs"
  using take_is_prefix by blast

lemma ReadBytes_line:
  "delim \<notin> set pre \<Longrightarrow> ReadBytes delim (pre @ delim # rest) = (Inr (pre @ [delim]), rest)"
proof -
  assume a: "delim \<notin> set pre"
  have 1: "takeWhile (\<lambda>b. b \<noteq> delim) (pre @ delim # rest) = pre"
    using a by (induction pre) auto
  have 2: "dropWhile (\<lambda>b. b \<noteq> delim) (pre @ delim # rest) = delim # rest"
    using a by (induction pre) auto
  show ?thesis by (simp add: ReadBytes_def 1 2)
qed

lemma ReadBytes_Inr:
  "ReadBytes delim br = (Inr line, br') \<Longrightarrow> br = line @ br'"
  apply (auto simp: ReadBytes_def split: if_splits)
  by (metis (mono_tags, lifting) dropWhile_eq_Nil_conv hd_dropWhile list.collapse takeWhile_dropWhile_id)

lemma readFull_Inr: "readFull n br = (Inr bs, br') \<Longrightarrow> br = bs @ br' \<and> length bs = n"
  by (auto simp: readFull_def split: if_splits)

lemma parseProxyV1_consumed:
  "parseProxyV1 ParseIP br = (Inr h, br') \<Longrightarrow> br = RawBytes h @ br' \<and> Version h = 1"
  by (auto simp: parseProxyV1_def Let_def split: prod.splits sum.splits if_splits dest!: ReadBytes_Inr)

lemma parseProxyV2_consumed:
  "parseProxyV2 br = (Inr h, br') \<Longrightarrow> br = RawBytes h @ br' \<and> Version h = 2"
  by (auto simp: parseProxyV2_def Let_def split: prod.splits sum.splits if_splits dest!: readFull_Inr)

lemma detect_consumed:
  "detectProxyProtocol ParseIP br = (Inr (Some h), br') \<Longrightarrow> br = RawBytes h @ br'"
  by (auto simp: detectProxyProtocol_def Let_def split: prod.splits sum.splits if_splits
      dest!: parseProxyV1_consumed parseProxyV2_consumed)

lemma detect_none:
  "detectProxyProtocol ParseIP br = (Inr None, br') \<Longrightarrow> br' = br"
  by (auto simp: detectProxyProtocol_def Let_def split: prod.splits sum.splits if_splits)


lemma parseProxyV1_wf:
  assumes "v1_header H"
  shows "\<exists>h. parseProxyV1 ParseIP (H @ B) = (Inr h, B) \<and> RawBytes h = H \<and> Version h = 1"
proof -
  from assms have ne: "H \<noteq> []" by (auto simp: v1_header_def)
  then have H: "H = butlast H @ [LF]" using assms by (metis append_butlast_last_id v1_header_def)
  have nl: "LF \<notin> set (butlast H)" using assms by (simp add: v1_header_def)
  have rb: "ReadBytes LF (H @ B) = (Inr H, B)"
    using ReadBytes_line [OF nl, of B] H by (metis append.assoc append_Cons append_Nil)
  show ?thesis using assms
    by (auto simp: parseProxyV1_def rb v1_header_def Let_def)
qed

lemma length_proxyV1Prefix: "length proxyV1Prefix = 6"
  by (simp add: proxyV1Prefix_def bytes_of_def)

lemma detect_v1_step:
  "6 \<le> length br \<Longrightarrow> take 6 br = proxyV1Prefix \<Longrightarrow> take 12 br \<noteq> proxyV2Sig \<Longrightarrow>
   detectProxyProtocol ParseIP br =
     (case parseProxyV1 ParseIP br of
        (Inl e, br') \<Rightarrow> (Inl e, br')
      | (Inr h, br') \<Rightarrow> (Inr (Some h), br'))"
  by (simp add: detectProxyProtocol_def Peek_def Let_def length_proxyV1Prefix)

lemma detect_v2_step:
  "16 \<le> length br \<Longrightarrow> take 12 br = proxyV2Sig \<Longrightarrow>
   detectProxyProtocol ParseIP br =
     (case parseProxyV2 br of
        (Inl e, br') \<Rightarrow> (Inl e, br')
      | (Inr h, br') \<Rightarrow> (Inr (Some h), br'))"
  by (simp add: detectProxyProtocol_def Peek_def Let_def)

lemma detect_v1_wf:
  assumes "v1_header H"
  shows "\<exists>h. detectProxyProtocol ParseIP (H @ B) = (Inr (Some h), B) \<and> RawBytes h = H \<and> Version h = 1"
proof -
  from assms obtain rest where H: "H = proxyV1Prefix @ rest"
    by (auto simp: v1_header_def prefix_def)
  have l: "6 \<le> length (H @ B)"
    by (subst H) (simp add: proxyV1Prefix_def bytes_of_def)
  have t6: "take 6 (H @ B) = proxyV1Prefix"
    by (subst H) (simp add: proxyV1Prefix_def bytes_of_def)
  have t12: "take 12 (H @ B) \<noteq> proxyV2Sig"
    by (subst H) (simp add: proxyV1Prefix_def bytes_of_def proxyV2Sig_def)
  from parseProxyV1_wf [OF assms, of ParseIP B] obtain h where
    h: "parseProxyV1 ParseIP (H @ B) = (Inr h, B) \<and> RawBytes h = H \<and> Version h = 1" by blast
  have "detectProxyProtocol ParseIP (H @ B) = (Inr (Some h), B)"
    by (simp add: detect_v1_step [OF l t6 t12] h)
  with h show ?thesis by blast
qed

lemma parseProxyV2_wf:
  assumes "v2_header H"
  shows "\<exists>h. parseProxyV2 (H @ B) = (Inr h, B) \<and> RawBytes h = H \<and> Version h = 2"
proof -
  let ?n = "unat (BigEndianUint16 (H ! 14) (H ! 15))"
  from assms have l: "length H = 16 + ?n" and v: "drop_bit 4 (H ! 12) = 2"
    by (auto simp: v2_header_def)
  have rf: "readFull 16 (H @ B) = (Inr (take 16 H), drop 16 H @ B)"
    using l by (simp add: readFull_def)
  have rf2: "readFull ?n (drop 16 H @ B) = (Inr (drop 16 H), B)"
    using l by (simp add: readFull_def)
  have z: "?n = 0 \<Longrightarrow> drop 16 H = []" using l by simp
  have nth: "take 16 H ! 12 = H ! 12" "take 16 H ! 13 = H ! 13" "take 16 H ! 14 = H ! 14" "take 16 H ! 15 = H ! 15"
    by simp_all
  show ?thesis
    using v z by (auto simp: parseProxyV2_def rf rf2 nth Let_def word_greater_zero_iff unat_eq_zero)
qed


lemma detect_v2_wf:
  assumes "v2_header H"
  shows "\<exists>h. detectProxyProtocol ParseIP (H @ B) = (Inr (Some h), B) \<and> RawBytes h = H \<and> Version h = 2"
proof -
  from assms have l: "16 \<le> length (H @ B)" and t: "take 12 (H @ B) = proxyV2Sig"
    by (auto simp: v2_header_def)
  from parseProxyV2_wf [OF assms, of B] obtain h where
    h: "parseProxyV2 (H @ B) = (Inr h, B) \<and> RawBytes h = H \<and> Version h = 2" by blast
  have "detectProxyProtocol ParseIP (H @ B) = (Inr (Some h), B)"
    by (simp add: detect_v2_step [OF l t] h)
  with h show ?thesis by blast
qed

lemma v1_not_v2: "v1_header H \<Longrightarrow> \<not> v2_header H"
proof
  assume a: "v1_header H" and b: "v2_header H"
  from a obtain rest where "H = proxyV1Prefix @ rest" by (auto simp: v1_header_def prefix_def)
  then have "hd H = 0x50" by (simp add: proxyV1Prefix_def bytes_of_def)
  moreover from b have "H = proxyV2Sig @ drop 12 H"
    by (metis append_take_drop_id v2_header_def)
  then have "hd H = 0x0D" by (metis hd_append2 list.sel(1) list.simps(3) proxyV2Sig_def)
  ultimately show False by simp
qed

text \<open>
  C4. For every well-formed v1 or v2 header \<open>H\<close> (a v2 header with all the bytes inside
  its declared length, TLVs included) followed by any bytes \<open>B\<close>,
  \<open>detectProxyProtocol\<close> on \<open>H @ B\<close> returns a header of the right version whose
  \<open>RawBytes\<close> is exactly \<open>H\<close>, and the reader is left at the first byte of \<open>B\<close>.
\<close>

theorem detect_consumes_exactly_the_header:
  "v1_header H \<or> v2_header H \<Longrightarrow>
   \<exists>h. detectProxyProtocol ParseIP (H @ B) = (Inr (Some h), B) \<and> RawBytes h = H \<and>
       Version h = (if v1_header H then 1 else 2)"
  using detect_v1_wf [of H ParseIP B] detect_v2_wf [of H ParseIP B] v1_not_v2 [of H]
  by auto

theorem detect_consumes_exactly_the_header_witness:
  "(v1_header (bytes_of ''PROXY TCP4 1.2.3.4 10.0.0.1 11111 25565'' @ [CR, LF]) \<or>
    v2_header (bytes_of ''PROXY TCP4 1.2.3.4 10.0.0.1 11111 25565'' @ [CR, LF])) \<and>
   (\<exists>h. detectProxyProtocol (\<lambda>s. None)
          ((bytes_of ''PROXY TCP4 1.2.3.4 10.0.0.1 11111 25565'' @ [CR, LF]) @ bytes_of ''MC_DATA'') =
          (Inr (Some h), bytes_of ''MC_DATA'') \<and>
        RawBytes h = bytes_of ''PROXY TCP4 1.2.3.4 10.0.0.1 11111 25565'' @ [CR, LF])"
proof -
  have a: "v1_header (bytes_of ''PROXY TCP4 1.2.3.4 10.0.0.1 11111 25565'' @ [CR, LF])"
    by (simp add: v1_header_def proxyV1Prefix_def bytes_of_def CR_def LF_def SP_def TrimRight_def)
  then have b: "v1_header (bytes_of ''PROXY TCP4 1.2.3.4 10.0.0.1 11111 25565'' @ [CR, LF]) \<or>
    v2_header (bytes_of ''PROXY TCP4 1.2.3.4 10.0.0.1 11111 25565'' @ [CR, LF])" by blast
  from detect_consumes_exactly_the_header [OF b, of "\<lambda>s. None" "bytes_of ''MC_DATA''"] b
  show ?thesis by blast
qed

text \<open>
  C5. For every byte string \<open>S\<close> that begins neither with \<^verbatim>\<open>PROXY\<close> and a space nor
  with the v2 signature (strings shorter than 6 bytes included), \<open>detectProxyProtocol\<close>
  reports no header and no error and consumes nothing: the reader still holds \<open>S\<close>.
\<close>

theorem detect_leaves_other_streams_untouched:
  "\<not> prefix proxyV1Prefix S \<Longrightarrow> \<not> prefix proxyV2Sig S \<Longrightarrow>
   detectProxyProtocol ParseIP S = (Inr None, S)"
proof -
  assume a: "\<not> prefix proxyV1Prefix S" and b: "\<not> prefix proxyV2Sig S"
  have 1: "take 12 S \<noteq> proxyV2Sig" using b take_eq_prefix by blast
  have 2: "take 6 S \<noteq> proxyV1Prefix" using a take_eq_prefix by blast
  show ?thesis
    using 1 2 by (simp add: detectProxyProtocol_def Peek_def Let_def min_def)
qed

theorem detect_leaves_other_streams_untouched_witness:
  "\<not> prefix proxyV1Prefix [0x10, 0x00, 0xFD, 0x05, 0x09, 0x6C, 0x6F] \<and>
   \<not> prefix proxyV2Sig [0x10, 0x00, 0xFD, 0x05, 0x09, 0x6C, 0x6F] \<and>
   detectProxyProtocol (\<lambda>s. None) [0x10, 0x00, 0xFD, 0x05, 0x09, 0x6C, 0x6F] =
     (Inr None, [0x10, 0x00, 0xFD, 0x05, 0x09, 0x6C, 0x6F])"
proof -
  have a: "\<not> prefix proxyV1Prefix [0x10, 0x00, 0xFD, 0x05, 0x09, 0x6C, 0x6F :: byte]"
    by (simp add: proxyV1Prefix_def bytes_of_def)
  have b: "\<not> prefix proxyV2Sig [0x10, 0x00, 0xFD, 0x05, 0x09, 0x6C, 0x6F :: byte]"
    by (simp add: proxyV2Sig_def)
  show ?thesis
    using a b detect_leaves_other_streams_untouched [OF a b, of "\<lambda>s. None"] by simp
qed

lemma parseProxyV1_line:
  assumes "LF \<notin> set ln"
  shows "parseProxyV1 ParseIP ((ln @ [CR, LF]) @ B) =
     (let line = ln @ [CR, LF];
          header = \<lparr>Version = 1, SrcAddr = None, DstAddr = None,
                    SrcPort = 0, DstPort = 0, RawBytes = line\<rparr>;
          parts = Split (TrimRight line [CR, LF]) SP
      in if length parts = 2 \<and> parts ! 1 = bytes_of ''UNKNOWN'' then (Inr header, B)
         else if length parts \<noteq> 6 then (Inl (V1FieldCount (length parts)), B)
         else
           let srcPort = (case Sscanf_d (parts ! 4) of Some v \<Rightarrow> v | None \<Rightarrow> 0);
               dstPort = (case Sscanf_d (parts ! 5) of Some v \<Rightarrow> v | None \<Rightarrow> 0)
           in (Inr (header\<lparr>SrcAddr := ParseIP (parts ! 2),
                            DstAddr := ParseIP (parts ! 3),
                            SrcPort := of_int srcPort,
                            DstPort := of_int dstPort\<rparr>), B))"
proof -
  have nl: "LF \<notin> set (ln @ [CR])" using assms by (simp add: CR_def LF_def)
  have rb: "ReadBytes LF ((ln @ [CR, LF]) @ B) = (Inr (ln @ [CR, LF]), B)"
    using ReadBytes_line [OF nl, of B] by simp
  have n: "(ln @ [CR, LF]) ! (length (ln @ [CR, LF]) - 2) = CR"
    by (simp add: nth_append)
  show ?thesis
    unfolding parseProxyV1_def rb using n by (simp add: Let_def)
qed

lemma digit_not_space:
  assumes "isDigit c \<or> c = 0x2B \<or> c = 0x2D"
  shows "SkipSpace (c # cs) = Some (c # cs)"
proof -
  have r: "43 \<le> unat c \<and> unat c \<le> 57"
    using assms by (auto simp: isDigit_def word_le_nat_alt)
  have f: "c \<noteq> 0x0A" "\<not> (0x09 \<le> c \<and> c \<le> 0x0D)" "c \<noteq> 0x20" "c \<noteq> 0xC2" "c \<noteq> 0xE1"
    "c \<noteq> 0xE2" "c \<noteq> 0xE3"
    using r by (auto simp: word_le_nat_alt)
  show ?thesis
    by (simp only: SkipSpace.simps f if_False simp_thms)
qed

lemma takeWhile_all: "list_all P xs \<Longrightarrow> takeWhile P xs = xs"
  by (induction xs) auto

lemma int_lt_pow: "int n < 2 ^ 63 \<longleftrightarrow> n < 2 ^ 63"
  by (metis of_nat_less_iff of_nat_numeral of_nat_power)

lemma Sscanf_d_unfold:
  "SkipSpace (c # cs) = Some (c # cs) \<Longrightarrow>
   takeWhile isDigit (if c = 0x2B \<or> c = 0x2D then cs else c # cs) = ds \<Longrightarrow>
   Sscanf_d (c # cs) =
     (if ds = [] then None
      else if c \<noteq> 0x2D \<and> digitsVal ds \<ge> 2 ^ 63 then None
      else if c = 0x2D \<and> digitsVal ds > 2 ^ 63 then None
      else Some (if c = 0x2D then - int (digitsVal ds) else int (digitsVal ds)))"
  by (cases "c = 0x2B \<or> c = 0x2D") (auto simp add: Sscanf_d_def Let_def simp del: SkipSpace.simps)

lemma Sscanf_d_decimal:
  assumes "decimal_token tok"
  shows "Sscanf_d tok =
     (if - (2 ^ 63) \<le> token_value tok \<and> token_value tok < 2 ^ 63 then Some (token_value tok) else None)"
proof -
  from assms obtain c cs where tok: "tok = c # cs" by (cases tok) (auto simp: decimal_token_def)
  define ds where "ds = (if c = 0x2B \<or> c = 0x2D then cs else c # cs)"
  from assms have ds: "ds \<noteq> []" "list_all isDigit ds"
    by (auto simp: decimal_token_def tok ds_def Let_def)
  have c: "isDigit c \<or> c = 0x2B \<or> c = 0x2D"
    using ds by (auto simp: ds_def split: if_splits)
  have tw: "takeWhile isDigit (if c = 0x2B \<or> c = 0x2D then cs else c # cs) = ds"
    using ds(2) takeWhile_all unfolding ds_def by blast
  have tv: "token_value tok = (if c = 0x2D then - int (digitsVal ds) else int (digitsVal ds))"
    by (simp add: token_value_def tok ds_def)
  have "- (2 ^ 63) \<le> - int (digitsVal ds) \<longleftrightarrow> digitsVal ds \<le> 2 ^ 63"
    by (metis neg_le_iff_le of_nat_le_iff of_nat_numeral of_nat_power)
  moreover have "- int (digitsVal ds) < 2 ^ 63"
    by (smt (verit) of_nat_0_le_iff zero_less_power)
  moreover have "- (2 ^ 63) \<le> int (digitsVal ds)"
    by (smt (verit) of_nat_0_le_iff zero_less_power)
  ultimately show ?thesis
    unfolding tok Sscanf_d_unfold [OF digit_not_space [OF c] tw] tv [unfolded tok]
    using ds(1) by (auto simp: int_lt_pow not_le not_less)
qed


text \<open>
  C7 (as the code has it). \<open>parseProxyV1\<close> checks the number of tokens and nothing
  else. For every CR LF terminated line, with \<open>parts\<close> its tokens after the line end
  is stripped: if there are six tokens, or two with the second \<^verbatim>\<open>UNKNOWN\<close>, the line
  is accepted, whatever the first two tokens are; in every other case it is rejected
  with the field-count error.
\<close>

theorem v1_rejected_by_field_count_only:
  assumes "LF \<notin> set ln"
  shows "let parts = Split (TrimRight (ln @ [CR, LF]) [CR, LF]) SP
         in if (length parts = 2 \<and> parts ! 1 = bytes_of ''UNKNOWN'') \<or> length parts = 6
            then \<exists>h. parseProxyV1 ParseIP ((ln @ [CR, LF]) @ B) = (Inr h, B)
            else parseProxyV1 ParseIP ((ln @ [CR, LF]) @ B) =
                   (Inl (V1FieldCount (length parts)), B)"
  unfolding parseProxyV1_line [OF assms] by (simp add: Let_def)

lemma uint_port: "uint (of_int v :: uint16) = v mod 2 ^ 16"
  by (simp add: uint_word_of_int)

text \<open>
  C9 (as the code has it). A six-token line is never rejected for its ports. A port
  token that is a decimal integer within the 64-bit signed range gives that integer
  modulo \<open>2 ^ 16\<close>; one outside that range gives 0, as does every token for which
  \<^verbatim>\<open>Sscanf\<close> reports an error.
\<close>

theorem v1_port_is_value_mod_65536:
  assumes "LF \<notin> set ln"
    and "Split (TrimRight (ln @ [CR, LF]) [CR, LF]) SP = parts"
    and "length parts = 6"
  shows "\<exists>h. parseProxyV1 ParseIP ((ln @ [CR, LF]) @ B) = (Inr h, B) \<and>
     (decimal_token (parts ! 4) \<longrightarrow>
        uint (SrcPort h) =
          (if - (2 ^ 63) \<le> token_value (parts ! 4) \<and> token_value (parts ! 4) < 2 ^ 63
           then token_value (parts ! 4) mod 2 ^ 16 else 0)) \<and>
     (decimal_token (parts ! 5) \<longrightarrow>
        uint (DstPort h) =
          (if - (2 ^ 63) \<le> token_value (parts ! 5) \<and> token_value (parts ! 5) < 2 ^ 63
           then token_value (parts ! 5) mod 2 ^ 16 else 0)) \<and>
     (Sscanf_d (parts ! 4) = None \<longrightarrow> SrcPort h = 0) \<and>
     (Sscanf_d (parts ! 5) = None \<longrightarrow> DstPort h = 0)"
  unfolding parseProxyV1_line [OF assms(1)]
  using assms(2,3) by (simp add: Let_def Sscanf_d_decimal uint_port)


lemmas eval_defs = bytes_of_def CR_def LF_def SP_def TrimRight_def parseProxyV1_def ReadBytes_def
  Sscanf_d_def isDigit_def digitsVal_def Let_def

text \<open>
  The claim C7 as stated fails: a six-token line whose second token is neither
  \<^verbatim>\<open>TCP4\<close> nor \<^verbatim>\<open>TCP6\<close> is accepted (the result is not an error, and the header
  carries the line as its raw bytes).
\<close>

theorem v1_unknown_tag_counterexample:
  "Split (TrimRight (bytes_of ''PROXY FOO 1.2.3.4 5.6.7.8 1 2'' @ [CR, LF]) [CR, LF]) SP =
     [bytes_of ''PROXY'', bytes_of ''FOO'', bytes_of ''1.2.3.4'', bytes_of ''5.6.7.8'',
      bytes_of ''1'', bytes_of ''2''] \<and>
   \<not> isl (fst (parseProxyV1 (\<lambda>s. None) (bytes_of ''PROXY FOO 1.2.3.4 5.6.7.8 1 2'' @ [CR, LF]))) \<and>
   RawBytes (projr (fst (parseProxyV1 (\<lambda>s. None)
       (bytes_of ''PROXY FOO 1.2.3.4 5.6.7.8 1 2'' @ [CR, LF])))) =
     bytes_of ''PROXY FOO 1.2.3.4 5.6.7.8 1 2'' @ [CR, LF]"
  by (simp add: eval_defs)

theorem v1_rejected_by_field_count_only_witness:
  "LF \<notin> set (bytes_of ''PROXY TCP4 1.2.3.4'') \<and>
   parseProxyV1 (\<lambda>s. None) ((bytes_of ''PROXY TCP4 1.2.3.4'' @ [CR, LF]) @ [0x10]) =
     (Inl (V1FieldCount 3), [0x10])"
proof -
  have a: "LF \<notin> set (bytes_of ''PROXY TCP4 1.2.3.4'')" by (simp add: bytes_of_def LF_def)
  show ?thesis
    using a v1_rejected_by_field_count_only [OF a, of "\<lambda>s. None" "[0x10]"]
    by (simp add: bytes_of_def CR_def LF_def SP_def TrimRight_def Let_def)
qed

text \<open>
  The claim C9 as stated fails: the port token \<^verbatim>\<open>99999999999999999999\<close> is a decimal
  integer, its value modulo \<open>2 ^ 16\<close> is 65535, and the parsed port is 0.
\<close>

theorem v1_port_overflow_counterexample:
  "decimal_token (bytes_of ''99999999999999999999'') \<and>
   token_value (bytes_of ''99999999999999999999'') mod 2 ^ 16 = 65535 \<and>
   \<not> isl (fst (parseProxyV1 (\<lambda>s. None)
       (bytes_of ''PROXY TCP4 1.2.3.4 5.6.7.8 99999999999999999999 2'' @ [CR, LF]))) \<and>
   SrcPort (projr (fst (parseProxyV1 (\<lambda>s. None)
       (bytes_of ''PROXY TCP4 1.2.3.4 5.6.7.8 99999999999999999999 2'' @ [CR, LF])))) = 0"
  by (simp add: eval_defs decimal_token_def token_value_def)

theorem v1_port_is_value_mod_65536_witness:
  "LF \<notin> set (bytes_of ''PROXY TCP4 1.2.3.4 5.6.7.8 70000 -5'') \<and>
   (\<exists>h. parseProxyV1 (\<lambda>s. None)
          ((bytes_of ''PROXY TCP4 1.2.3.4 5.6.7.8 70000 -5'' @ [CR, LF]) @ []) = (Inr h, []) \<and>
        uint (SrcPort h) = 4464 \<and> uint (DstPort h) = 65531)"
proof -
  have a: "LF \<notin> set (bytes_of ''PROXY TCP4 1.2.3.4 5.6.7.8 70000 -5'')"
    by (simp add: bytes_of_def LF_def)
  have b: "Split (TrimRight (bytes_of ''PROXY TCP4 1.2.3.4 5.6.7.8 70000 -5'' @ [CR, LF]) [CR, LF]) SP =
     [bytes_of ''PROXY'', bytes_of ''TCP4'', bytes_of ''1.2.3.4'', bytes_of ''5.6.7.8'',
      bytes_of ''70000'', bytes_of ''-5'']"
    by (simp add: bytes_of_def CR_def LF_def SP_def TrimRight_def)
  have c: "length [bytes_of ''PROXY'', bytes_of ''TCP4'', bytes_of ''1.2.3.4'', bytes_of ''5.6.7.8'',
      bytes_of ''70000'', bytes_of ''-5''] = 6" by simp
  have d: "decimal_token (bytes_of ''70000'')" "decimal_token (bytes_of ''-5'')"
    "token_value (bytes_of ''70000'') = 70000" "token_value (bytes_of ''-5'') = - 5"
    by (simp_all add: decimal_token_def token_value_def bytes_of_def isDigit_def digitsVal_def)
  from v1_port_is_value_mod_65536 [OF a b c, of "\<lambda>s. None" "[]"] a d
  show ?thesis by auto
qed

lemma BE16_split: "BigEndianUint16 (ucast (drop_bit 8 v)) (ucast v) = (v :: uint16)"
  unfolding BigEndianUint16_def
  by (rule bit_word_eqI) (auto simp: bit_simps)

lemma len4: "length xs = 4 \<Longrightarrow> \<exists>a b c d. xs = [a, b, c, d]"
  by (auto simp: eval_nat_numeral length_Suc_conv)

lemma len16: "length xs = 16 \<Longrightarrow>
  \<exists>a0 a1 a2 a3 a4 a5 a6 a7 a8 a9 a10 a11 a12 a13 a14 a15.
    xs = [a0, a1, a2, a3, a4, a5, a6, a7, a8, a9, a10, a11, a12, a13, a14, a15]"
  by (auto simp: eval_nat_numeral length_Suc_conv)

lemma To4_length: "To4 ip = Some a \<Longrightarrow> length a = 4"
  by (auto simp: To4_def split: if_splits)

lemma To16_length: "To16 ip = Some a \<Longrightarrow> length a = 16"
  by (auto simp: To16_def v4InV6Prefix_def split: if_splits)

lemma To4_Equal: "To4 ip = Some a \<Longrightarrow> Equal a ip"
proof -
  assume a: "To4 ip = Some a"
  show ?thesis
  proof (cases "length ip = 4")
    case True
    with a show ?thesis by (simp add: To4_def Equal_def)
  next
    case False
    with a have l: "length ip = 16" and t: "take 10 ip = replicate 10 0" "ip ! 10 = 0xff" "ip ! 11 = 0xff"
      and d: "a = drop 12 ip" by (auto simp: To4_def split: if_splits)
    from len16 [OF l] obtain a0 a1 a2 a3 a4 a5 a6 a7 a8 a9 a10 a11 a12 a13 a14 a15 where
      ip: "ip = [a0, a1, a2, a3, a4, a5, a6, a7, a8, a9, a10, a11, a12, a13, a14, a15]" by blast
    show ?thesis using t d unfolding ip
      by (simp add: Equal_def v4InV6Prefix_def eval_nat_numeral)
  qed
qed

lemma To16_Equal: "To16 ip = Some a \<Longrightarrow> Equal a ip"
  by (auto simp: To16_def Equal_def v4InV6Prefix_def split: if_splits)


lemma BE16_bytes: "BigEndianUint16 (hi_byte v) (lo_byte v) = v"
  by (simp add: hi_byte_def lo_byte_def BE16_split)

lemma byte_consts:
  "hi_byte 12 = 0" "lo_byte 12 = 12" "hi_byte 36 = 0" "lo_byte 36 = 36" "hi_byte 0 = 0" "lo_byte 0 = 0"
  by (simp_all add: hi_byte_def lo_byte_def)

lemma build_v4:
  assumes "To4 sip = Some a" "To4 dip = Some b"
  shows "buildProxyV2Header (TCPAddr sip sp) (TCPAddr dip dp) =
         proxyV2Sig @ [0x21, 0x11, 0x00, 0x0C] @ a @ b @ be16 (of_int sp) @ be16 (of_int dp)"
proof -
  from len4 [OF To4_length [OF assms(1)]] obtain a0 a1 a2 a3 where a: "a = [a0, a1, a2, a3]" by blast
  from len4 [OF To4_length [OF assms(2)]] obtain b0 b1 b2 b3 where b: "b = [b0, b1, b2, b3]" by blast
  show ?thesis
    using assms unfolding a b
    by (simp add: buildProxyV2Header_def makeBytes_def copy_def PutUint16_def proxyV2Sig_def
        nil_to_empty_def be16_def Let_def byte_consts eval_nat_numeral)
qed

lemma build_v6:
  assumes "To4 sip = None \<or> To4 dip = None" "To16 sip = Some a" "To16 dip = Some b"
  shows "buildProxyV2Header (TCPAddr sip sp) (TCPAddr dip dp) =
         proxyV2Sig @ [0x21, 0x21, 0x00, 0x24] @ a @ b @ be16 (of_int sp) @ be16 (of_int dp)"
proof -
  from len16 [OF To16_length [OF assms(2)]] obtain a0 a1 a2 a3 a4 a5 a6 a7 a8 a9 a10 a11 a12 a13 a14 a15
    where a: "a = [a0, a1, a2, a3, a4, a5, a6, a7, a8, a9, a10, a11, a12, a13, a14, a15]" by blast
  from len16 [OF To16_length [OF assms(3)]] obtain b0 b1 b2 b3 b4 b5 b6 b7 b8 b9 b10 b11 b12 b13 b14 b15
    where b: "b = [b0, b1, b2, b3, b4, b5, b6, b7, b8, b9, b10, b11, b12, b13, b14, b15]" by blast
  have c: "\<not> (To4 sip \<noteq> None \<and> To4 dip \<noteq> None)" using assms(1) by auto
  have "buildProxyV2Header (TCPAddr sip sp) (TCPAddr dip dp) =
    PutUint16 (PutUint16 (copy (copy (PutUint16 ((copy (makeBytes (16 + 36)) 0 12 proxyV2Sig)
       [12 := 0x21, 13 := 0x21]) 14 36) 16 32 (nil_to_empty (To16 sip))) 32 48 (nil_to_empty (To16 dip)))
       48 (of_int sp)) 50 (of_int dp)"
    unfolding buildProxyV2Header_def
    by (simp only: Addr.case prod.case Let_def c if_False)
  then show ?thesis
    unfolding assms(2,3) a b
    by (simp add: makeBytes_def copy_def PutUint16_def proxyV2Sig_def
        nil_to_empty_def be16_def byte_consts eval_nat_numeral)
qed


lemma codec_consts:
  "BigEndianUint16 0 12 = 12" "BigEndianUint16 0 36 = 36"
  "drop_bit 4 (0x21 :: byte) = 2" "drop_bit 4 (0x11 :: byte) = 1"
  "unat (12 :: uint16) = 12" "unat (36 :: uint16) = 36"
  by (simp_all add: BigEndianUint16_def)

lemma parse_v4_block:
  assumes "length a = 4" "length b = 4"
  shows "parseProxyV2 ((proxyV2Sig @ [0x21, 0x11, 0x00, 0x0C] @ a @ b @ [s1, s0, d1, d0]) @ B) =
     (Inr \<lparr>Version = 2, SrcAddr = Some a, DstAddr = Some b,
           SrcPort = BigEndianUint16 s1 s0, DstPort = BigEndianUint16 d1 d0,
           RawBytes = proxyV2Sig @ [0x21, 0x11, 0x00, 0x0C] @ a @ b @ [s1, s0, d1, d0]\<rparr>, B)"
proof -
  from len4 [OF assms(1)] obtain a0 a1 a2 a3 where a: "a = [a0, a1, a2, a3]" by blast
  from len4 [OF assms(2)] obtain b0 b1 b2 b3 where b: "b = [b0, b1, b2, b3]" by blast
  show ?thesis
    unfolding a b
    by (simp add: parseProxyV2_def readFull_def proxyV2Sig_def codec_consts Let_def)
qed

lemma parse_v6_block:
  assumes "length a = 16" "length b = 16"
  shows "parseProxyV2 ((proxyV2Sig @ [0x21, 0x21, 0x00, 0x24] @ a @ b @ [s1, s0, d1, d0]) @ B) =
     (Inr \<lparr>Version = 2, SrcAddr = Some a, DstAddr = Some b,
           SrcPort = BigEndianUint16 s1 s0, DstPort = BigEndianUint16 d1 d0,
           RawBytes = proxyV2Sig @ [0x21, 0x21, 0x00, 0x24] @ a @ b @ [s1, s0, d1, d0]\<rparr>, B)"
proof -
  from len16 [OF assms(1)] obtain a0 a1 a2 a3 a4 a5 a6 a7 a8 a9 a10 a11 a12 a13 a14 a15
    where a: "a = [a0, a1, a2, a3, a4, a5, a6, a7, a8, a9, a10, a11, a12, a13, a14, a15]" by blast
  from len16 [OF assms(2)] obtain b0 b1 b2 b3 b4 b5 b6 b7 b8 b9 b10 b11 b12 b13 b14 b15
    where b: "b = [b0, b1, b2, b3, b4, b5, b6, b7, b8, b9, b10, b11, b12, b13, b14, b15]" by blast
  show ?thesis
    unfolding a b
    by (simp add: parseProxyV2_def readFull_def proxyV2Sig_def codec_consts Let_def)
qed


lemma length_proxyV2Sig: "length proxyV2Sig = 12"
  by (simp add: proxyV2Sig_def)

lemma detect_built:
  assumes "length a = n" "length b = n"
    and "parseProxyV2 ((proxyV2Sig @ [v, f, l1, l0] @ a @ b @ [s1, s0, d1, d0]) @ B) = (Inr h, B)"
  shows "detectProxyProtocol ParseIP ((proxyV2Sig @ [v, f, l1, l0] @ a @ b @ [s1, s0, d1, d0]) @ B) =
         (Inr (Some h), B)"
proof -
  have l: "16 \<le> length ((proxyV2Sig @ [v, f, l1, l0] @ a @ b @ [s1, s0, d1, d0]) @ B)"
    by (simp add: length_proxyV2Sig)
  have t: "take 12 ((proxyV2Sig @ [v, f, l1, l0] @ a @ b @ [s1, s0, d1, d0]) @ B) = proxyV2Sig"
    by (simp add: length_proxyV2Sig)
  show ?thesis
    by (simp only: detect_v2_step [OF l t] assms(3) prod.case sum.case)
qed

lemma uint_port_range: "0 \<le> p \<Longrightarrow> p \<le> 65535 \<Longrightarrow>
   uint (BigEndianUint16 (hi_byte (of_int p)) (lo_byte (of_int p))) = p"
  by (simp add: BE16_bytes uint_word_of_int take_bit_eq_mod)

text \<open>
  C6. For every pair of TCP addresses whose IPs are 4 or 16 bytes long and whose ports
  lie in \<open>[0, 65535]\<close>, \<open>detectProxyProtocol\<close> on the output of
  \<open>buildProxyV2Header\<close> (followed by any bytes \<open>B\<close>) succeeds, consumes exactly the
  header and yields a version-2 header with the ports of the pair and with addresses
  equal to those of the pair in the sense of \<^verbatim>\<open>net.IP.Equal\<close>: the 4-byte forms when both
  sides are IPv4, the 16-byte forms otherwise.
\<close>

theorem build_detect_roundtrip:
  assumes "length sip = 4 \<or> length sip = 16" and "length dip = 4 \<or> length dip = 16"
    and "0 \<le> sp" and "sp \<le> 65535" and "0 \<le> dp" and "dp \<le> 65535"
  shows "\<exists>h a b.
     detectProxyProtocol ParseIP
        (buildProxyV2Header (TCPAddr sip sp) (TCPAddr dip dp) @ B) = (Inr (Some h), B) \<and>
     Version h = 2 \<and>
     SrcAddr h = Some a \<and> Equal a sip \<and> DstAddr h = Some b \<and> Equal b dip \<and>
     Some a = (if To4 sip \<noteq> None \<and> To4 dip \<noteq> None then To4 sip else To16 sip) \<and>
     Some b = (if To4 sip \<noteq> None \<and> To4 dip \<noteq> None then To4 dip else To16 dip) \<and>
     uint (SrcPort h) = sp \<and> uint (DstPort h) = dp"
proof (cases "To4 sip \<noteq> None \<and> To4 dip \<noteq> None")
  case True
  then obtain a b where ab: "To4 sip = Some a" "To4 dip = Some b" by auto
  let ?H = "proxyV2Sig @ [0x21, 0x11, 0x00, 0x0C] @ a @ b @
            [hi_byte (of_int sp), lo_byte (of_int sp), hi_byte (of_int dp), lo_byte (of_int dp)]"
  let ?h = "\<lparr>Version = 2, SrcAddr = Some a, DstAddr = Some b,
            SrcPort = BigEndianUint16 (hi_byte (of_int sp)) (lo_byte (of_int sp)),
            DstPort = BigEndianUint16 (hi_byte (of_int dp)) (lo_byte (of_int dp)),
            RawBytes = ?H\<rparr>"
  have bld: "buildProxyV2Header (TCPAddr sip sp) (TCPAddr dip dp) = ?H"
    using build_v4 [OF ab] by (simp add: be16_def)
  have la: "length a = 4" "length b = 4" using ab To4_length by blast+
  have "detectProxyProtocol ParseIP (?H @ B) = (Inr (Some ?h), B)"
    by (rule detect_built [OF la parse_v4_block [OF la]])
  then have d: "detectProxyProtocol ParseIP
      (buildProxyV2Header (TCPAddr sip sp) (TCPAddr dip dp) @ B) = (Inr (Some ?h), B)"
    by (simp only: bld)
  have p: "uint (SrcPort ?h) = sp" "uint (DstPort ?h) = dp"
    using assms(3-6) by (simp_all add: uint_port_range)
  have e: "Equal a sip" "Equal b dip" using ab To4_Equal by blast+
  show ?thesis
    apply (rule exI [of _ ?h], rule exI [of _ a], rule exI [of _ b])
    using d p e True ab by simp
next
  case False
  from assms(1,2) obtain a b where ab: "To16 sip = Some a" "To16 dip = Some b"
    by (auto simp: To16_def)
  from False have n: "To4 sip = None \<or> To4 dip = None" by auto
  let ?H = "proxyV2Sig @ [0x21, 0x21, 0x00, 0x24] @ a @ b @
            [hi_byte (of_int sp), lo_byte (of_int sp), hi_byte (of_int dp), lo_byte (of_int dp)]"
  let ?h = "\<lparr>Version = 2, SrcAddr = Some a, DstAddr = Some b,
            SrcPort = BigEndianUint16 (hi_byte (of_int sp)) (lo_byte (of_int sp)),
            DstPort = BigEndianUint16 (hi_byte (of_int dp)) (lo_byte (of_int dp)),
            RawBytes = ?H\<rparr>"
  have bld: "buildProxyV2Header (TCPAddr sip sp) (TCPAddr dip dp) = ?H"
    using build_v6 [OF n ab] by (simp add: be16_def)
  have la: "length a = 16" "length b = 16" using ab To16_length by blast+
  have "detectProxyProtocol ParseIP (?H @ B) = (Inr (Some ?h), B)"
    by (rule detect_built [OF la parse_v6_block [OF la]])
  then have d: "detectProxyProtocol ParseIP
      (buildProxyV2Header (TCPAddr sip sp) (TCPAddr dip dp) @ B) = (Inr (Some ?h), B)"
    by (simp only: bld)
  have p: "uint (SrcPort ?h) = sp" "uint (DstPort ?h) = dp"
    using assms(3-6) by (simp_all add: uint_port_range)
  have e: "Equal a sip" "Equal b dip" using ab To16_Equal by blast+
  show ?thesis
    apply (rule exI [of _ ?h], rule exI [of _ a], rule exI [of _ b])
    using d p e n ab by auto
qed


theorem build_detect_roundtrip_witness:
  "(length [203, 0, 113, 50 :: byte] = 4 \<or> length [203, 0, 113, 50 :: byte] = 16) \<and>
   (length [10, 0, 0, 1 :: byte] = 4 \<or> length [10, 0, 0, 1 :: byte] = 16) \<and>
   (0 :: int) \<le> 49152 \<and> (49152 :: int) \<le> 65535 \<and> (0 :: int) \<le> 25565 \<and> (25565 :: int) \<le> 65535 \<and>
   (\<exists>h. detectProxyProtocol (\<lambda>s. None)
          (buildProxyV2Header (TCPAddr [203, 0, 113, 50] 49152) (TCPAddr [10, 0, 0, 1] 25565) @ []) =
          (Inr (Some h), []) \<and>
        SrcAddr h = Some [203, 0, 113, 50] \<and> DstAddr h = Some [10, 0, 0, 1] \<and>
        uint (SrcPort h) = 49152 \<and> uint (DstPort h) = 25565)"
  using build_detect_roundtrip [of "[203, 0, 113, 50]" "[10, 0, 0, 1]" 49152 25565 "\<lambda>s. None" "[]"]
  by (auto simp: To4_def)

section \<open>Properties of the forwarder\<close>

lemma splice_out:
  assumes "(case conn_Write cap hdr of
              (sent, False) \<Rightarrow> HeaderWriteFailed sent
            | (sent, True) \<Rightarrow> Spliced (sent @ io_Copy (after_Write cap hdr) rest)) = Spliced out"
  shows "(cap = None \<longrightarrow> out = hdr @ rest) \<and>
         (\<forall>k. cap = Some k \<longrightarrow> length hdr \<le> k \<and> out = hdr @ take (k - length hdr) rest)"
proof (cases cap)
  case None
  with assms show ?thesis by (simp add: conn_Write_def after_Write_def io_Copy_def)
next
  case (Some k)
  show ?thesis
  proof (cases "length hdr \<le> k")
    case True
    with assms Some show ?thesis by (simp add: conn_Write_def after_Write_def io_Copy_def)
  next
    case False
    with assms Some show ?thesis by (simp add: conn_Write_def)
  qed
qed

lemma build_local:
  "src = OtherAddr \<or> dst = OtherAddr \<Longrightarrow>
   buildProxyV2Header src dst = proxyV2Sig @ [0x20, 0x00] @ be16 0"
  by (cases src; cases dst)
    (simp_all add: buildProxyV2Header_def makeBytes_def copy_def PutUint16_def proxyV2Sig_def
      be16_def byte_consts eval_nat_numeral)

lemma build_eq_spec:
  assumes "valid_addr src" "valid_addr dst"
  shows "buildProxyV2Header src dst = spec_v2_header src dst"
proof (cases "src = OtherAddr \<or> dst = OtherAddr")
  case True
  then have "spec_v2_header src dst = proxyV2Sig @ [0x20, 0x00] @ be16 0"
    by (cases src; cases dst) (simp_all add: spec_v2_header_def)
  with build_local [OF True] show ?thesis by simp
next
  case False
  then obtain sip sp dip dp where s: "src = TCPAddr sip sp" and d: "dst = TCPAddr dip dp"
    by (cases src; cases dst) auto
  show ?thesis
  proof (cases "To4 sip \<noteq> None \<and> To4 dip \<noteq> None")
    case True
    then obtain a b where ab: "To4 sip = Some a" "To4 dip = Some b" by auto
    show ?thesis
      unfolding s d build_v4 [OF ab]
      by (simp add: spec_v2_header_def ab be16_def byte_consts)
  next
    case False
    from assms s d obtain a b where ab: "To16 sip = Some a" "To16 dip = Some b"
      by (auto simp: valid_addr_def To16_def)
    from False have n: "To4 sip = None \<or> To4 dip = None" by auto
    have sp: "spec_v2_header (TCPAddr sip sp) (TCPAddr dip dp) =
        proxyV2Sig @ [0x21, 0x21] @ be16 36 @ a @ b @ be16 (of_int sp) @ be16 (of_int dp)"
      using n ab by (auto simp: spec_v2_header_def nil_to_empty_def split: option.splits)
    show ?thesis
      unfolding s d build_v6 [OF n ab] sp
      by (simp add: be16_def byte_consts)
  qed
qed


lemma detect_wf_unique:
  assumes "v1_header H \<or> v2_header H"
    and "detectProxyProtocol ParseIP (H @ B) = (res, rest)"
  shows "\<exists>h. res = Inr (Some h) \<and> RawBytes h = H \<and> rest = B"
proof -
  from assms(1) detect_v1_wf [of H ParseIP B] detect_v2_wf [of H ParseIP B]
  obtain h where "detectProxyProtocol ParseIP (H @ B) = (Inr (Some h), B)" "RawBytes h = H"
    by blast
  with assms(2) show ?thesis by auto
qed

text \<open>
  C3 (as the code has it). Whenever the handler reaches the splice, what it has written
  to the backend is one PROXY header followed by client bytes and nothing else. The
  header is the detected header's \<open>RawBytes\<close> (the client stream is that header followed
  by the rest; in particular a stream that starts with a well-formed v1 or v2 header
  \<open>H\<close> is passed on with exactly \<open>H\<close> as the header), or, when none was detected, the v2
  header built from the client's remote address as source and the local address as
  destination, which for valid addresses is the header the specification prescribes (and
  the rest is the whole client stream). The rest follows in its original order: all of it
  when no write to the backend fails, and otherwise the part written before the failing
  write.
\<close>

theorem backend_receives_one_header_then_client_bytes:
  assumes "handleConnection ParseIP env client = Spliced out"
  shows "\<exists>hdr rest.
     ((\<exists>h. detectProxyProtocol ParseIP client = (Inr (Some h), rest) \<and>
           hdr = RawBytes h \<and> client = hdr @ rest) \<or>
      (detectProxyProtocol ParseIP client = (Inr None, rest) \<and> rest = client \<and>
       hdr = buildProxyV2Header (RemoteAddr env) (LocalAddr env))) \<and>
     (\<forall>H B. (v1_header H \<or> v2_header H) \<and> client = H @ B \<longrightarrow> hdr = H \<and> rest = B) \<and>
     (valid_addr (RemoteAddr env) \<and> valid_addr (LocalAddr env) \<longrightarrow>
        buildProxyV2Header (RemoteAddr env) (LocalAddr env) =
          spec_v2_header (RemoteAddr env) (LocalAddr env)) \<and>
     (backend_accepts env = None \<longrightarrow> out = hdr @ rest) \<and>
     (\<forall>k. backend_accepts env = Some k \<longrightarrow>
          length hdr \<le> k \<and> out = hdr @ take (k - length hdr) rest)"
proof (cases "detectProxyProtocol ParseIP client")
  case (Pair res rest)
  have sp: "valid_addr (RemoteAddr env) \<and> valid_addr (LocalAddr env) \<longrightarrow>
        buildProxyV2Header (RemoteAddr env) (LocalAddr env) =
          spec_v2_header (RemoteAddr env) (LocalAddr env)"
    using build_eq_spec by blast
  show ?thesis
  proof (cases res)
    case (Inl e)
    with Pair assms show ?thesis by (simp add: handleConnection_def)
  next
    case (Inr ph)
    have dial: "dial_ok env"
      using assms Pair Inr by (cases "dial_ok env") (simp_all add: handleConnection_def)
    show ?thesis
    proof (cases ph)
      case None
      from Pair Inr None have d: "detectProxyProtocol ParseIP client = (Inr None, rest)" by simp
      from detect_none [OF d] have r: "rest = client" .
      let ?hdr = "buildProxyV2Header (RemoteAddr env) (LocalAddr env)"
      have "(case conn_Write (backend_accepts env) ?hdr of
              (sent, False) \<Rightarrow> HeaderWriteFailed sent
            | (sent, True) \<Rightarrow> Spliced (sent @ io_Copy (after_Write (backend_accepts env) ?hdr) rest))
            = Spliced out"
        using assms dial by (simp add: handleConnection_def d Let_def)
      from splice_out [OF this] have w:
        "(backend_accepts env = None \<longrightarrow> out = ?hdr @ rest) \<and>
         (\<forall>k. backend_accepts env = Some k \<longrightarrow>
            length ?hdr \<le> k \<and> out = ?hdr @ take (k - length ?hdr) rest)" .
      have u: "\<forall>H B. (v1_header H \<or> v2_header H) \<and> client = H @ B \<longrightarrow> ?hdr = H \<and> rest = B"
      proof (intro allI impI)
        fix H B
        assume a: "(v1_header H \<or> v2_header H) \<and> client = H @ B"
        then have "detectProxyProtocol ParseIP (H @ B) = (Inr None, rest)" using d by simp
        from detect_wf_unique [OF conjunct1 [OF a] this] show "?hdr = H \<and> rest = B" by simp
      qed
      have first: "(\<exists>h. detectProxyProtocol ParseIP client = (Inr (Some h), rest) \<and>
           ?hdr = RawBytes h \<and> client = ?hdr @ rest) \<or>
        (detectProxyProtocol ParseIP client = (Inr None, rest) \<and> rest = client \<and>
         ?hdr = buildProxyV2Header (RemoteAddr env) (LocalAddr env))"
        using d r by simp
      show ?thesis
        by (rule exI [of _ ?hdr], rule exI [of _ rest]) (intro conjI first u sp w [THEN conjunct1] w [THEN conjunct2])
    next
      case (Some h)
      from Pair Inr Some have d: "detectProxyProtocol ParseIP client = (Inr (Some h), rest)" by simp
      from detect_consumed [OF d] have c: "client = RawBytes h @ rest" .
      have "(case conn_Write (backend_accepts env) (RawBytes h) of
              (sent, False) \<Rightarrow> HeaderWriteFailed sent
            | (sent, True) \<Rightarrow>
                Spliced (sent @ io_Copy (after_Write (backend_accepts env) (RawBytes h)) rest))
            = Spliced out"
        using assms dial by (simp add: handleConnection_def d)
      from splice_out [OF this] have w:
        "(backend_accepts env = None \<longrightarrow> out = RawBytes h @ rest) \<and>
         (\<forall>k. backend_accepts env = Some k \<longrightarrow>
            length (RawBytes h) \<le> k \<and> out = RawBytes h @ take (k - length (RawBytes h)) rest)" .
      have u: "\<forall>H B. (v1_header H \<or> v2_header H) \<and> client = H @ B \<longrightarrow> RawBytes h = H \<and> rest = B"
      proof (intro allI impI)
        fix H B
        assume a: "(v1_header H \<or> v2_header H) \<and> client = H @ B"
        then have "detectProxyProtocol ParseIP (H @ B) = (Inr (Some h), rest)" using d by simp
        from detect_wf_unique [OF conjunct1 [OF a] this] show "RawBytes h = H \<and> rest = B" by simp
      qed
      have first: "(\<exists>h'. detectProxyProtocol ParseIP client = (Inr (Some h'), rest) \<and>
           RawBytes h = RawBytes h' \<and> client = RawBytes h @ rest) \<or>
        (detectProxyProtocol ParseIP client = (Inr None, rest) \<and> rest = client \<and>
         RawBytes h = buildProxyV2Header (RemoteAddr env) (LocalAddr env))"
        using d c by auto
      show ?thesis
        by (rule exI [of _ "RawBytes h"], rule exI [of _ rest])
          (intro conjI first u sp w [THEN conjunct1] w [THEN conjunct2])
    qed
  qed
qed


lemma sample_detect:
  "detectProxyProtocol (\<lambda>s. None) (bytes_of ''HELLO_MC'') = (Inr None, bytes_of ''HELLO_MC'')"
  by (simp add: detectProxyProtocol_def Peek_def bytes_of_def proxyV1Prefix_def proxyV2Sig_def)

lemma sample_header:
  "buildProxyV2Header (TCPAddr [203, 0, 113, 50] 49152) (TCPAddr [10, 0, 0, 1] 25565) =
     proxyV2Sig @ [0x21, 0x11] @ be16 12 @ [203, 0, 113, 50] @ [10, 0, 0, 1] @
     be16 49152 @ be16 25565"
proof -
  have "valid_addr (TCPAddr [203, 0, 113, 50] 49152)" "valid_addr (TCPAddr [10, 0, 0, 1] 25565)"
    by (simp_all add: valid_addr_def)
  from build_eq_spec [OF this] show ?thesis
    by (simp add: spec_v2_header_def To4_def)
qed

lemma sample_length:
  "length (buildProxyV2Header (TCPAddr [203, 0, 113, 50] 49152) (TCPAddr [10, 0, 0, 1] 25565)) = 28"
  by (simp add: sample_header proxyV2Sig_def be16_def)

text \<open>
  The claim C3 as stated fails when a write to the backend fails during the splice: a
  backend that takes the 28 header bytes and then fails the next write receives the
  header and none of the 8 client bytes, although the handler reached the splice.
\<close>

theorem backend_write_failure_counterexample:
  "detectProxyProtocol (\<lambda>s. None) (bytes_of ''HELLO_MC'') = (Inr None, bytes_of ''HELLO_MC'') \<and>
   length (bytes_of ''HELLO_MC'') = 8 \<and>
   handleConnection (\<lambda>s. None)
      \<lparr>RemoteAddr = TCPAddr [203, 0, 113, 50] 49152, LocalAddr = TCPAddr [10, 0, 0, 1] 25565,
       dial_ok = True, backend_accepts = Some 28\<rparr>
      (bytes_of ''HELLO_MC'') =
     Spliced (proxyV2Sig @ [0x21, 0x11] @ be16 12 @ [203, 0, 113, 50] @ [10, 0, 0, 1] @
              be16 49152 @ be16 25565)"
proof -
  have "handleConnection (\<lambda>s. None)
      \<lparr>RemoteAddr = TCPAddr [203, 0, 113, 50] 49152, LocalAddr = TCPAddr [10, 0, 0, 1] 25565,
       dial_ok = True, backend_accepts = Some 28\<rparr>
      (bytes_of ''HELLO_MC'') =
     Spliced (buildProxyV2Header (TCPAddr [203, 0, 113, 50] 49152) (TCPAddr [10, 0, 0, 1] 25565))"
    by (simp add: handleConnection_def sample_detect conn_Write_def after_Write_def io_Copy_def
        sample_length)
  moreover have "length (bytes_of ''HELLO_MC'') = 8" by (simp add: bytes_of_def)
  ultimately show ?thesis
    by (simp only: sample_detect sample_header simp_thms)
qed

theorem backend_receives_one_header_then_client_bytes_witness:
  "handleConnection (\<lambda>s. None)
      \<lparr>RemoteAddr = TCPAddr [203, 0, 113, 50] 49152, LocalAddr = TCPAddr [10, 0, 0, 1] 25565,
       dial_ok = True, backend_accepts = None\<rparr>
      (bytes_of ''HELLO_MC'') =
     Spliced (proxyV2Sig @ [0x21, 0x11] @ be16 12 @ [203, 0, 113, 50] @ [10, 0, 0, 1] @
              be16 49152 @ be16 25565 @ bytes_of ''HELLO_MC'')"
proof -
  have h: "handleConnection (\<lambda>s. None)
      \<lparr>RemoteAddr = TCPAddr [203, 0, 113, 50] 49152, LocalAddr = TCPAddr [10, 0, 0, 1] 25565,
       dial_ok = True, backend_accepts = None\<rparr>
      (bytes_of ''HELLO_MC'') =
     Spliced (buildProxyV2Header (TCPAddr [203, 0, 113, 50] 49152) (TCPAddr [10, 0, 0, 1] 25565) @
              bytes_of ''HELLO_MC'')"
    by (simp add: handleConnection_def sample_detect conn_Write_def after_Write_def io_Copy_def)
  from backend_receives_one_header_then_client_bytes [OF h] h show ?thesis
    by (simp add: sample_header)
qed

section \<open>Properties of the fan-out\<close>

lemma dispatch_winner:
  "length pre < n \<Longrightarrow> \<forall>e \<in> set pre. \<exists>r'. e = Result r' \<and> \<not> wins r' \<Longrightarrow> wins r \<Longrightarrow>
   dispatch n (pre @ Result r # post) = Some (success (Body r), post)"
proof (induction pre arbitrary: n)
  case Nil
  then obtain m where "n = Suc m" by (cases n) auto
  with Nil show ?case by (simp add: wins_def)
next
  case (Cons e pre)
  then obtain m where n: "n = Suc m" by (cases n) auto
  from Cons.prems obtain r' where e: "e = Result r'" and nw: "\<not> wins r'" by auto
  have "dispatch m (pre @ Result r # post) = Some (success (Body r), post)"
    using Cons.IH [of m] Cons.prems n by simp
  with n e nw show ?case by (auto simp: wins_def)
qed

lemma dispatch_no_winner:
  "\<forall>r. Result r \<in> set (takeWhile (\<lambda>e. e \<noteq> Done) evs) \<longrightarrow> \<not> wins r \<Longrightarrow>
   Done \<in> set evs \<or> n \<le> length evs \<Longrightarrow>
   \<exists>rest. dispatch n evs = Some (no_content, rest)"
proof (induction n evs rule: dispatch.induct)
  case (1 evs)
  show ?case by simp
next
  case (2 remaining)
  then show ?case by simp
next
  case (3 remaining evs)
  show ?case by simp
next
  case (4 remaining result evs)
  have nw: "\<not> wins result" using "4.prems"(1) by simp
  have a: "\<forall>r. Result r \<in> set (takeWhile (\<lambda>e. e \<noteq> Done) evs) \<longrightarrow> \<not> wins r"
    using "4.prems"(1) by simp
  have b: "Done \<in> set evs \<or> remaining \<le> length evs" using "4.prems"(2) by auto
  show ?case
  proof (cases "Err result \<noteq> None")
    case True
    with "4.IH"(1) [OF True a b] show ?thesis by simp
  next
    case False
    with nw have c: "\<not> (StatusCode result = StatusOK \<and> 0 < length (Body result))"
      by (simp add: wins_def)
    from "4.IH"(2) [OF False c a b] False c show ?thesis by auto
  qed
qed

text \<open>
  C1. With a non-empty query, let the dispatcher receive the results \<open>pre\<close>, none of
  them a winner and none of them the deadline, and then a result \<open>r\<close> with status 200
  and a non-empty body, \<open>r\<close> being one of the results of the probes started (fewer
  than \<open>length servers\<close> results came before it). Then the handler answers 200 with
  \<^verbatim>\<open>Content-Type: application/json\<close> and exactly the body of \<open>r\<close>, and it consumes
  nothing after \<open>r\<close>: every later event, result or deadline, is left unread.
\<close>

theorem first_winner_is_served:
  assumes "query \<noteq> []"
    and "length pre < length servers"
    and "\<forall>e \<in> set pre. \<exists>r'. e = Result r' \<and> \<not> wins r'"
    and "wins r"
  shows "handleHasJoined servers query (pre @ Result r # post) =
           Some \<lparr>resp = \<lparr>status = 200,
                         headers = [(''Content-Type'', ''application/json'')],
                         body = Body r\<rparr>,
                 probes = map (\<lambda>server. probe_url server query) servers,
                 unconsumed = post\<rparr>"
  using assms dispatch_winner [of pre "length servers" r post]
  by (simp add: handleHasJoined_def success_def StatusOK_def)

theorem first_winner_is_served_witness:
  "''username=a'' \<noteq> [] \<and>
   wins \<lparr>StatusCode = 200, Body = [0x7B, 0x7D], Server = ''minehut'', Err = None\<rparr> \<and>
   \<not> wins \<lparr>StatusCode = 204, Body = [], Server = ''mojang'', Err = None\<rparr> \<and>
   resp (the (handleHasJoined [''https://u1'', ''https://u2/''] ''username=a''
     ([Result \<lparr>StatusCode = 204, Body = [], Server = ''mojang'', Err = None\<rparr>] @
      Result \<lparr>StatusCode = 200, Body = [0x7B, 0x7D], Server = ''minehut'', Err = None\<rparr> #
      [Done]))) =
     \<lparr>status = 200, headers = [(''Content-Type'', ''application/json'')], body = [0x7B, 0x7D]\<rparr>"
  using first_winner_is_served [of "''username=a''"
      "[Result \<lparr>StatusCode = 204, Body = [], Server = ''mojang'', Err = None\<rparr>]"
      "[''https://u1'', ''https://u2/'']"
      "\<lparr>StatusCode = 200, Body = [0x7B, 0x7D], Server = ''minehut'', Err = None\<rparr>"
      "[Done]"]
  by (simp add: wins_def StatusOK_def)

text \<open>
  C2. With a non-empty query, if no result the dispatcher can receive before the
  deadline is a winner (each is an error, another status, or 200 with an empty body),
  and the wait ends (the deadline fires, or every probe has reported), then the handler
  answers 204 No Content: one fixed response, whatever the failing results were and in
  whatever order they came.
\<close>

theorem no_winner_no_content:
  assumes "query \<noteq> []"
    and "\<forall>r. Result r \<in> set (takeWhile (\<lambda>e. e \<noteq> Done) evs) \<longrightarrow> \<not> wins r"
    and "Done \<in> set evs \<or> length servers \<le> length evs"
  shows "\<exists>rest. handleHasJoined servers query evs =
           Some \<lparr>resp = \<lparr>status = 204, headers = [], body = []\<rparr>,
                 probes = map (\<lambda>server. probe_url server query) servers,
                 unconsumed = rest\<rparr>"
proof -
  from dispatch_no_winner [OF assms(2,3)]
  obtain rest where "dispatch (length servers) evs = Some (no_content, rest)" by blast
  with assms(1) show ?thesis
    by (simp add: handleHasJoined_def no_content_def StatusNoContent_def)
qed

theorem no_winner_no_content_witness:
  "''username=a'' \<noteq> [] \<and>
   (\<exists>rest. handleHasJoined [''https://u1'', ''https://u2/''] ''username=a''
      [Result \<lparr>StatusCode = 0, Body = [], Server = ''mojang'', Err = Some ''request failed''\<rparr>,
       Done,
       Result \<lparr>StatusCode = 200, Body = [0x7B, 0x7D], Server = ''minehut'', Err = None\<rparr>] =
      Some \<lparr>resp = \<lparr>status = 204, headers = [], body = []\<rparr>,
            probes = [''https://u1/session/minecraft/hasJoined?username=a'',
                      ''https://u2/session/minecraft/hasJoined?username=a''],
            unconsumed = rest\<rparr>)"
  using no_winner_no_content [of "''username=a''"
      "[Result \<lparr>StatusCode = 0, Body = [], Server = ''mojang'', Err = Some ''request failed''\<rparr>,
        Done,
        Result \<lparr>StatusCode = 200, Body = [0x7B, 0x7D], Server = ''minehut'', Err = None\<rparr>]"
      "[''https://u1'', ''https://u2/'']"]
  by (simp add: wins_def probe_url_def TrimRight_def hasJoinedPath_def)

text \<open>
  C10. With an empty server list and a non-empty query the handler answers 204 No
  Content at once: no probe is started and no event is consumed, neither a result nor
  the deadline, so the loop body does not run.
\<close>

theorem empty_server_list_no_content:
  "query \<noteq> [] \<Longrightarrow>
   handleHasJoined [] query evs =
     Some \<lparr>resp = \<lparr>status = 204, headers = [], body = []\<rparr>, probes = [], unconsumed = evs\<rparr>"
  by (simp add: handleHasJoined_def no_content_def StatusNoContent_def)

theorem empty_server_list_no_content_witness:
  "''username=a'' \<noteq> [] \<and>
   handleHasJoined [] ''username=a'' [Done] =
     Some \<lparr>resp = \<lparr>status = 204, headers = [], body = []\<rparr>, probes = [], unconsumed = [Done]\<rparr>"
  using empty_server_list_no_content [of "''username=a''" "[Done]"]
  by simp

section \<open>Properties of the HTTP front\<close>

text \<open>
  C8 (as the code has it). The routes are chosen by path alone, whatever the method.
  For every request the mux hands to a handler (its target is not \<^verbatim>\<open>*\<close>, and its path
  is in the cleaned form or its method is \<^verbatim>\<open>CONNECT\<close>; the mux redirects the others)
  with a rooted path: the path \<^verbatim>\<open>/session/minecraft/hasJoined\<close> goes to the fan-out,
  the path \<^verbatim>\<open>/health\<close> is answered 200 \<^verbatim>\<open>ok\<close>, and every other path goes to the
  fan-out if it contains \<^verbatim>\<open>hasJoined\<close> and is answered 404 with the informational body
  otherwise.
\<close>

theorem front_routes_by_path_only:
  assumes "Path r \<noteq> ''*''"
    and "Method r = ''CONNECT'' \<or> cleanPath (Path r) = Path r"
    and "prefix ''/'' (Path r)"
  shows "(Path r = hasJoinedPath \<longrightarrow> front r = CallHasJoined) \<and>
         (Path r = ''/health'' \<longrightarrow>
            front r = Reply \<lparr>status = 200, headers = [], body = bytes_of ''ok''\<rparr>) \<and>
         (Path r \<noteq> hasJoinedPath \<and> Path r \<noteq> ''/health'' \<longrightarrow>
            front r =
              (if Contains (Path r) ''hasJoined'' then CallHasJoined
               else Reply \<lparr>status = 404, headers = [],
                           body = bytes_of ''mc-dual-proxy multiauth server''\<rparr>))"
  using assms
  by (auto simp: front_def mux_handler_def health_def not_found_def StatusOK_def
      StatusNotFound_def hasJoinedPath_def)

text \<open>
  The claim C8 as stated fails: a \<^verbatim>\<open>POST\<close> to \<^verbatim>\<open>/health\<close>, whose path does not contain
  \<^verbatim>\<open>hasJoined\<close>, is answered 200 \<^verbatim>\<open>ok\<close>, not 404.
\<close>

theorem non_get_health_counterexample:
  "Method \<lparr>Method = ''POST'', Path = ''/health'', RawQuery = ''''\<rparr> \<noteq> ''GET'' \<and>
   \<not> Contains (Path \<lparr>Method = ''POST'', Path = ''/health'', RawQuery = ''''\<rparr>) ''hasJoined'' \<and>
   front \<lparr>Method = ''POST'', Path = ''/health'', RawQuery = ''''\<rparr> =
     Reply \<lparr>status = 200, headers = [], body = bytes_of ''ok''\<rparr>"
  by (simp add: front_def mux_handler_def health_def StatusOK_def hasJoinedPath_def
      cleanPath_def Clean_def)

theorem front_routes_by_path_only_witness:
  "Path \<lparr>Method = ''POST'', Path = ''/foo/hasJoined'', RawQuery = ''a=b''\<rparr> \<noteq> ''*'' \<and>
   cleanPath ''/foo/hasJoined'' = ''/foo/hasJoined'' \<and>
   front \<lparr>Method = ''POST'', Path = ''/foo/hasJoined'', RawQuery = ''a=b''\<rparr> = CallHasJoined \<and>
   front \<lparr>Method = ''GET'', Path = ''/favicon.ico'', RawQuery = ''''\<rparr> =
     Reply \<lparr>status = 404, headers = [], body = bytes_of ''mc-dual-proxy multiauth server''\<rparr>"
proof -
  have a: "cleanPath ''/foo/hasJoined'' = ''/foo/hasJoined''" "cleanPath ''/favicon.ico'' = ''/favicon.ico''"
    by (simp_all add: cleanPath_def Clean_def)
  show ?thesis
    using a
      front_routes_by_path_only [of "\<lparr>Method = ''POST'', Path = ''/foo/hasJoined'', RawQuery = ''a=b''\<rparr>"]
      front_routes_by_path_only [of "\<lparr>Method = ''GET'', Path = ''/favicon.ico'', RawQuery = ''''\<rparr>"]
    by (simp add: hasJoinedPath_def)
qed

end
